theory Spec2Isabelle
  imports Main "HOL-Library.AList"
begin

section \<open>Data exchanged with the Generation Client\<close>

text \<open>
  The orchestrator of \<^verbatim>\<open>backend/ai_generator.py\<close> talks to two collaborators:
  the Generation Client (\<^verbatim>\<open>self.client.messages.create\<close>) and the tool manager
  (\<^verbatim>\<open>tool_manager.execute_tool\<close>). Both are parameters of the model. Every
  \<^verbatim>\<open>raise\<close> of the Python is a value of type \<open>exn\<close> on the left of a sum.
\<close>

datatype exn = IndexError | AttributeError | OtherError string

datatype arg = AStr string | AInt int

type_synonym kwargs = "(string \<times> arg) list"

text \<open>
  A content block of a response: a text block carries \<^verbatim>\<open>text\<close>; a block whose
  \<^verbatim>\<open>type\<close> is \<^verbatim>\<open>"tool_use"\<close> carries \<^verbatim>\<open>id\<close>, \<^verbatim>\<open>name\<close> and \<^verbatim>\<open>input\<close>
  and has no \<^verbatim>\<open>text\<close> attribute.
\<close>

datatype content_block =
    TextBlock string
  | ToolUseBlock string string kwargs

record tool_result =
  tr_type :: string
  tool_use_id :: string
  tr_content :: string

datatype message_content =
    Text string
  | Blocks "content_block list"
  | ToolResults "tool_result list"

datatype message = Message string message_content

record response =
  stop_reason :: string
  content :: "content_block list"

record tool_definition =
  td_name :: string
  td_description :: string

text \<open>
  The keyword arguments of \<^verbatim>\<open>messages.create\<close>. A key that the Python leaves out of
  the dictionary (\<^verbatim>\<open>tools\<close>, \<^verbatim>\<open>tool_choice\<close>) is \<open>None\<close>.
\<close>

record api_params =
  model :: string
  temperature :: int
  max_tokens :: int
  messages :: "message list"
  system :: string
  tools :: "tool_definition list option"
  tool_choice :: "string option"

text \<open>
  The client answers a call from the calls made before it and the call's parameters; it
  returns a response or raises. The tool manager answers a dispatch from the dispatches
  made before it, the tool's name and its keyword arguments.
\<close>

type_synonym generation_client = "api_params list \<Rightarrow> api_params \<Rightarrow> exn + response"

type_synonym tool_manager = "(string \<times> kwargs) list \<Rightarrow> string \<Rightarrow> kwargs \<Rightarrow> exn + string"

text \<open>
  \<^verbatim>\<open>AIGenerator\<close>: the client, the model name and the class attribute
  \<^verbatim>\<open>SYSTEM_PROMPT\<close> (a fixed text that no branch of the code inspects).
\<close>

record ai_generator =
  client :: generation_client
  gen_model :: string
  SYSTEM_PROMPT :: string

text \<open>
  The local variables of \<^verbatim>\<open>_handle_tool_execution\<close> (\<open>msgs\<close> is the Python's
  \<^verbatim>\<open>messages\<close>), with the calls made so far to the client (\<open>api_log\<close>) and to the
  tool manager (\<open>tool_log\<close>), oldest first.
\<close>

record loop_state =
  msgs :: "message list"
  current_response :: response
  round_count :: int
  api_log :: "api_params list"
  tool_log :: "(string \<times> kwargs) list"

text \<open>What a run leaves behind, whether it returns or raises.\<close>

record trace =
  calls :: "api_params list"
  dispatches :: "(string \<times> kwargs) list"
  rounds :: int
  transcript :: "message list"

section \<open>The orchestrator\<close>

definition apology :: string where
  "apology = ''I apologize, but I encountered an error while generating the final response.''"

text \<open>\<^verbatim>\<open>response.content[0].text\<close>\<close>

definition first_text :: "response \<Rightarrow> exn + string" where
  "first_text r =
     (case content r of
        [] \<Rightarrow> Inl IndexError
      | TextBlock t # _ \<Rightarrow> Inr t
      | ToolUseBlock i n inp # _ \<Rightarrow> Inl AttributeError)"

text \<open>
  The inner \<^verbatim>\<open>for content_block in current_response.content\<close>: every block of type
  \<^verbatim>\<open>tool_use\<close> is executed, in order, and its result appended to
  \<^verbatim>\<open>tool_results\<close>. A dispatch that raises ends the run.
\<close>

fun execute_tools ::
  "tool_manager \<Rightarrow> (string \<times> kwargs) list \<Rightarrow> content_block list \<Rightarrow> tool_result list
     \<Rightarrow> (exn + tool_result list) \<times> (string \<times> kwargs) list" where
  "execute_tools tm lg [] tool_results = (Inr tool_results, lg)"
| "execute_tools tm lg (TextBlock t # bs) tool_results = execute_tools tm lg bs tool_results"
| "execute_tools tm lg (ToolUseBlock i n inp # bs) tool_results =
     (case tm lg n inp of
        Inl e \<Rightarrow> (Inl e, lg @ [(n, inp)])
      | Inr tool_result \<Rightarrow>
          execute_tools tm (lg @ [(n, inp)]) bs
            (tool_results @
               [\<lparr>tr_type = ''tool_result'', tool_use_id = i, tr_content = tool_result\<rparr>]))"

definition next_params :: "ai_generator \<Rightarrow> api_params \<Rightarrow> message list \<Rightarrow> api_params" where
  "next_params self base_params ms =
     \<lparr>model = gen_model self, temperature = 0, max_tokens = 800,
      messages = ms,
      system = system base_params,
      tools = Some (case tools base_params of None \<Rightarrow> [] | Some ts \<Rightarrow> ts),
      tool_choice = Some ''auto''\<rparr>"

definition final_params :: "ai_generator \<Rightarrow> api_params \<Rightarrow> message list \<Rightarrow> api_params" where
  "final_params self base_params ms =
     \<lparr>model = gen_model self, temperature = 0, max_tokens = 800,
      messages = ms,
      system = system base_params,
      tools = None,
      tool_choice = None\<rparr>"

text \<open>
  The variables after a round whose dispatches all returned: the counter incremented once,
  the assistant turn appended, then the tool-result turn (\<^verbatim>\<open>if tool_results:\<close>).
\<close>

definition after_round ::
  "loop_state \<Rightarrow> tool_result list \<Rightarrow> (string \<times> kwargs) list \<Rightarrow> loop_state" where
  "after_round s tool_results lg =
     s\<lparr>round_count := round_count s + 1,
       msgs := msgs s
         @ [Message ''assistant'' (Blocks (content (current_response s)))]
         @ (if tool_results \<noteq> [] then [Message ''user'' (ToolResults tool_results)] else []),
       tool_log := lg\<rparr>"

text \<open>
  The \<^verbatim>\<open>while\<close> loop of \<^verbatim>\<open>_handle_tool_execution\<close>, from its head. The result is
  the exception that left the function, if any, and the variables at that point.
\<close>

function tool_loop ::
  "ai_generator \<Rightarrow> api_params \<Rightarrow> tool_manager option \<Rightarrow> int \<Rightarrow> loop_state
     \<Rightarrow> exn option \<times> loop_state" where
  "tool_loop self base_params tool_manager max_rounds s =
     (case tool_manager of
        None \<Rightarrow> (None, s)
      | Some tm \<Rightarrow>
          if round_count s < max_rounds \<and> stop_reason (current_response s) = ''tool_use'' then
            (case execute_tools tm (tool_log s) (content (current_response s)) [] of
               (Inl e, lg) \<Rightarrow>
                 (Some e,
                  s\<lparr>round_count := round_count s + 1,
                    msgs := msgs s @ [Message ''assistant'' (Blocks (content (current_response s)))],
                    tool_log := lg\<rparr>)
             | (Inr tool_results, lg) \<Rightarrow>
                 (let s1 = after_round s tool_results lg
                  in if round_count s1 \<ge> max_rounds then (None, s1)
                     else
                       (case client self (api_log s1) (next_params self base_params (msgs s1)) of
                          Inl e \<Rightarrow>
                            (None,
                             s1\<lparr>api_log := api_log s1 @ [next_params self base_params (msgs s1)]\<rparr>)
                        | Inr r \<Rightarrow>
                            tool_loop self base_params tool_manager max_rounds
                              (s1\<lparr>api_log := api_log s1 @ [next_params self base_params (msgs s1)],
                                  current_response := r\<rparr>))))
          else (None, s))"
  by pat_completeness auto
termination
  by (relation "measure (\<lambda>(self, base_params, tool_manager, max_rounds, s).
                   nat (max_rounds - round_count s))") (auto simp: after_round_def)

declare tool_loop.simps [simp del]

text \<open>
  The code after the loop: the current response's text when it does not ask for tools,
  otherwise one call without tools, whose failure gives the apology.
\<close>

definition final_response ::
  "ai_generator \<Rightarrow> api_params \<Rightarrow> loop_state \<Rightarrow> (exn + string) \<times> loop_state" where
  "final_response self base_params s =
     (if stop_reason (current_response s) \<noteq> ''tool_use'' then (first_text (current_response s), s)
      else
        (case client self (api_log s) (final_params self base_params (msgs s)) of
           Inl e \<Rightarrow>
             (Inr apology, s\<lparr>api_log := api_log s @ [final_params self base_params (msgs s)]\<rparr>)
         | Inr r \<Rightarrow>
             (case first_text r of Inl e \<Rightarrow> Inr apology | Inr t \<Rightarrow> Inr t,
              s\<lparr>api_log := api_log s @ [final_params self base_params (msgs s)]\<rparr>)))"

text \<open>The body of \<^verbatim>\<open>_handle_tool_execution\<close> from the head of its loop.\<close>

definition run_from ::
  "ai_generator \<Rightarrow> api_params \<Rightarrow> tool_manager option \<Rightarrow> int \<Rightarrow> loop_state
     \<Rightarrow> (exn + string) \<times> loop_state" where
  "run_from self base_params tool_manager max_rounds s =
     (case tool_loop self base_params tool_manager max_rounds s of
        (Some e, s') \<Rightarrow> (Inl e, s')
      | (None, s') \<Rightarrow> final_response self base_params s')"

definition trace_of :: "loop_state \<Rightarrow> trace" where
  "trace_of s =
     \<lparr>calls = api_log s, dispatches = tool_log s, rounds = round_count s, transcript = msgs s\<rparr>"

text \<open>
  \<^verbatim>\<open>_handle_tool_execution(initial_response, base_params, tool_manager, max_rounds=2)\<close>.
  An omitted \<^verbatim>\<open>max_rounds\<close> is \<open>None\<close>. The last argument is the list of client calls
  made before this one was entered.
\<close>

definition handle_tool_execution ::
  "ai_generator \<Rightarrow> response \<Rightarrow> api_params \<Rightarrow> tool_manager option \<Rightarrow> int option
     \<Rightarrow> api_params list \<Rightarrow> (exn + string) \<times> trace" where
  "handle_tool_execution self initial_response base_params tool_manager max_rounds made =
     (case run_from self base_params tool_manager
             (case max_rounds of None \<Rightarrow> 2 | Some r \<Rightarrow> r)
             \<lparr>msgs = messages base_params, current_response = initial_response,
              round_count = 0, api_log = made, tool_log = []\<rparr> of
        (res, s) \<Rightarrow> (res, trace_of s))"

text \<open>
  \<^verbatim>\<open>generate_response(query, conversation_history=None, tools=None, tool_manager=None)\<close>.
  An empty history and an empty tool list are falsy, as \<open>None\<close> is.
\<close>

definition system_content :: "ai_generator \<Rightarrow> string option \<Rightarrow> string" where
  "system_content self conversation_history =
     (case conversation_history of
        None \<Rightarrow> SYSTEM_PROMPT self
      | Some h \<Rightarrow>
          if h = [] then SYSTEM_PROMPT self
          else SYSTEM_PROMPT self @ [CHR 0x0A, CHR 0x0A] @ ''Previous conversation:''
                 @ [CHR 0x0A] @ h)"

definition first_params ::
  "ai_generator \<Rightarrow> string \<Rightarrow> string option \<Rightarrow> tool_definition list option \<Rightarrow> api_params" where
  "first_params self query conversation_history tls =
     \<lparr>model = gen_model self, temperature = 0, max_tokens = 800,
      messages = [Message ''user'' (Text query)],
      system = system_content self conversation_history,
      tools = (case tls of None \<Rightarrow> None | Some ts \<Rightarrow> if ts = [] then None else Some ts),
      tool_choice = (case tls of None \<Rightarrow> None
                     | Some ts \<Rightarrow> if ts = [] then None else Some ''auto'')\<rparr>"

definition generate_response ::
  "ai_generator \<Rightarrow> string \<Rightarrow> string option \<Rightarrow> tool_definition list option
     \<Rightarrow> tool_manager option \<Rightarrow> (exn + string) \<times> trace" where
  "generate_response self query conversation_history tls tool_manager =
     (let api_params = first_params self query conversation_history tls
      in case client self [] api_params of
           Inl e \<Rightarrow>
             (Inl e, \<lparr>calls = [api_params], dispatches = [], rounds = 0,
                      transcript = messages api_params\<rparr>)
         | Inr response \<Rightarrow>
             if stop_reason response = ''tool_use'' \<and> tool_manager \<noteq> None
             then handle_tool_execution self response api_params tool_manager (Some 2)
                    [api_params]
             else (first_text response,
                   \<lparr>calls = [api_params], dispatches = [], rounds = 0,
                    transcript = messages api_params\<rparr>))"

text \<open>
  The blocks of a response whose \<^verbatim>\<open>type\<close> is \<^verbatim>\<open>"tool_use"\<close>, as
  (\<^verbatim>\<open>id\<close>, \<^verbatim>\<open>name\<close>, \<^verbatim>\<open>input\<close>), in the order of \<^verbatim>\<open>content\<close>: the filter of
  the inner loop, used to state what the loop dispatches.
\<close>

fun tool_use_requests :: "content_block list \<Rightarrow> (string \<times> string \<times> kwargs) list" where
  "tool_use_requests [] = []"
| "tool_use_requests (TextBlock t # bs) = tool_use_requests bs"
| "tool_use_requests (ToolUseBlock i n inp # bs) = (i, n, inp) # tool_use_requests bs"

section \<open>Search tool and tool registry\<close>

text \<open>
  \<^verbatim>\<open>search_tools.py\<close> and \<^verbatim>\<open>vector_store.py\<close> are exercised by the tests but are not
  among the sources; the definitions of this section follow the specification
  (sections 4.2 and 4.3).
\<close>

text \<open>Python's \<^verbatim>\<open>str\<close> of an integer, as the f-strings of the messages use it.\<close>

definition digits :: string where
  "digits = ''0123456789''"

fun str_nat :: "nat \<Rightarrow> string" where
  "str_nat n = (if n < 10 then [digits ! n] else str_nat (n div 10) @ [digits ! (n mod 10)])"

declare str_nat.simps [simp del]

definition str_int :: "int \<Rightarrow> string" where
  "str_int i = (if i < 0 then ''-'' @ str_nat (nat (- i)) else str_nat (nat i))"

text \<open>
  Modelled from the spec: a ranked match of the Search Backend (\<^verbatim>\<open>SearchResults\<close> of
  the missing \<^verbatim>\<open>vector_store.py\<close>): its text and its metadata, the course title and
  the optional lesson number. The relevance score is used by no operation and left out.
\<close>

record search_match =
  match_text :: string
  course_title :: string
  lesson_number :: "int option"

text \<open>
  Modelled from the spec: the Search Backend (the missing \<^verbatim>\<open>VectorStore\<close>). A search
  takes the query and the optional course and lesson filters and returns the matches in
  rank order, or an error text; resolving the link of a match gives a link or null, or
  raises.
\<close>

record search_backend =
  search :: "string \<Rightarrow> string option \<Rightarrow> int option \<Rightarrow> string + search_match list"
  resolve_link :: "search_match \<Rightarrow> exn + string option"

text \<open>
  Modelled from the spec: a Citation, display text and optional link (the entries of the
  missing \<^verbatim>\<open>last_sources\<close>, keys \<^verbatim>\<open>text\<close> and \<^verbatim>\<open>link\<close>).
\<close>

record citation =
  displayText :: string
  link :: "string option"

text \<open>
  Modelled from the spec: the four empty-result templates of the Content Search Tool
  (missing \<^verbatim>\<open>CourseSearchTool.execute\<close>), selected by which filters were supplied.
\<close>

definition empty_result_message :: "string option \<Rightarrow> int option \<Rightarrow> string" where
  "empty_result_message courseFilter lessonFilter =
     (case (courseFilter, lessonFilter) of
        (None, None) \<Rightarrow> ''No relevant content found.''
      | (Some course, None) \<Rightarrow>
          ''No relevant content found in course '' @ [CHR 0x27] @ course @ [CHR 0x27] @ ''.''
      | (None, Some n) \<Rightarrow> ''No relevant content found in lesson '' @ str_int n @ ''.''
      | (Some course, Some n) \<Rightarrow>
          ''No relevant content found in course '' @ [CHR 0x27] @ course @ [CHR 0x27]
            @ '' in lesson '' @ str_int n @ ''.'')"

text \<open>
  Modelled from the spec: the label of a match, \<^verbatim>\<open><course> - Lesson <n>\<close> or
  \<^verbatim>\<open><course>\<close> when the match has no lesson number (missing
  \<^verbatim>\<open>CourseSearchTool._format_results\<close>). It is the display text of the citation and,
  in square brackets, the header line of the rendered match.
\<close>

definition match_label :: "search_match \<Rightarrow> string" where
  "match_label m =
     (case lesson_number m of
        None \<Rightarrow> course_title m
      | Some n \<Rightarrow> course_title m @ '' - Lesson '' @ str_int n)"

text \<open>
  Modelled from the spec: the citation of one match (missing
  \<^verbatim>\<open>CourseSearchTool._format_results\<close>); a link resolution that raises gives a null
  link for that match only.
\<close>

definition cite :: "search_backend \<Rightarrow> search_match \<Rightarrow> citation" where
  "cite backend m =
     \<lparr>displayText = match_label m,
      link = (case resolve_link backend m of Inl e \<Rightarrow> None | Inr l \<Rightarrow> l)\<rparr>"

text \<open>
  Modelled from the spec: the rendering of the matches (missing
  \<^verbatim>\<open>CourseSearchTool._format_results\<close>): a header line and the match's text, a blank
  line between matches, in the backend's order.
\<close>

fun render_matches :: "search_match list \<Rightarrow> string" where
  "render_matches [] = []"
| "render_matches [m] = ''['' @ match_label m @ '']'' @ [CHR 0x0A] @ match_text m"
| "render_matches (m # ms) =
     ''['' @ match_label m @ '']'' @ [CHR 0x0A] @ match_text m @ [CHR 0x0A, CHR 0x0A]
       @ render_matches ms"

text \<open>
  Modelled from the spec: \<^verbatim>\<open>execute(query, courseFilter?, lessonFilter?)\<close> of the
  Content Search Tool (missing \<^verbatim>\<open>CourseSearchTool.execute\<close>). The result is the text
  and the citations that overwrite the registry's slot, one per match.
\<close>

definition search_execute ::
  "search_backend \<Rightarrow> string \<Rightarrow> string option \<Rightarrow> int option \<Rightarrow> string \<times> citation list" where
  "search_execute backend query courseFilter lessonFilter =
     (case search backend query courseFilter lessonFilter of
        Inl err \<Rightarrow> (err, [])
      | Inr ms \<Rightarrow>
          if ms = [] then (empty_result_message courseFilter lessonFilter, [])
          else (render_matches ms, map (cite backend) ms))"

text \<open>
  Modelled from the spec: a tool behind the common capability interface of the design
  notes, its declared name and \<^verbatim>\<open>execute(args) -> (text, citations)\<close> (the missing
  \<^verbatim>\<open>Tool\<close> base class). The type of the arguments is a parameter.
\<close>

record 'a tool =
  tool_name :: string
  execute :: "'a \<Rightarrow> string \<times> citation list"

text \<open>
  Modelled from the spec: the Tool Registry (missing \<^verbatim>\<open>ToolManager\<close>), the tools by
  name in registration order and the single citation slot.
\<close>

record 'a registry =
  registered :: "(string \<times> 'a tool) list"
  citation_slot :: "citation list"

text \<open>
  Modelled from the spec: \<^verbatim>\<open>register(tool)\<close> (missing \<^verbatim>\<open>ToolManager.register_tool\<close>);
  a later registration under the same name overwrites the earlier one.
\<close>

definition register :: "'a tool \<Rightarrow> 'a registry \<Rightarrow> 'a registry" where
  "register t reg = reg\<lparr>registered := AList.update (tool_name t) t (registered reg)\<rparr>"

text \<open>
  Modelled from the spec: \<^verbatim>\<open>dispatch(name, arguments)\<close> (missing
  \<^verbatim>\<open>ToolManager.execute_tool\<close>): the text \<^verbatim>\<open>Tool '<name>' not found\<close> for a name that
  is not registered, otherwise the tool's text, the tool's citations replacing the slot.
\<close>

definition dispatch :: "'a registry \<Rightarrow> string \<Rightarrow> 'a \<Rightarrow> string \<times> 'a registry" where
  "dispatch reg name arguments =
     (case map_of (registered reg) name of
        None \<Rightarrow> (''Tool '' @ [CHR 0x27] @ name @ [CHR 0x27] @ '' not found'', reg)
      | Some t \<Rightarrow>
          (case execute t arguments of
             (text, citations) \<Rightarrow> (text, reg\<lparr>citation_slot := citations\<rparr>)))"

text \<open>
  Modelled from the spec: \<^verbatim>\<open>getLastCitations()\<close> and \<^verbatim>\<open>resetCitations()\<close> (missing
  \<^verbatim>\<open>ToolManager.get_last_sources\<close> and \<^verbatim>\<open>ToolManager.reset_sources\<close>).
\<close>

definition getLastCitations :: "'a registry \<Rightarrow> citation list" where
  "getLastCitations reg = citation_slot reg"

definition resetCitations :: "'a registry \<Rightarrow> 'a registry" where
  "resetCitations reg = reg\<lparr>citation_slot := []\<rparr>"

text \<open>
  Modelled from the spec: the arguments of the Content Search Tool and the tool itself
  (missing \<^verbatim>\<open>CourseSearchTool\<close>; the tests give its name).
\<close>

record search_args =
  query :: string
  courseFilter :: "string option"
  lessonFilter :: "int option"

definition content_search_tool :: "search_backend \<Rightarrow> search_args tool" where
  "content_search_tool backend =
     \<lparr>tool_name = ''search_course_content'',
      execute = (\<lambda>a. search_execute backend (query a) (courseFilter a) (lessonFilter a))\<rparr>"

section \<open>Concrete runs\<close>

text \<open>The responses, tool manager and clients of the tests' scenarios.\<close>

definition tool_use_response :: response where
  "tool_use_response =
     \<lparr>stop_reason = ''tool_use'',
      content = [ToolUseBlock ''call_1'' ''search_course_content''
                   [(''query'', AStr ''programming'')]]\<rparr>"

definition text_response :: response where
  "text_response = \<lparr>stop_reason = ''end_turn'', content = [TextBlock ''Final response'']\<rparr>"

definition search_results_manager :: tool_manager where
  "search_results_manager lg n inp = Inr ''Search results''"

definition search_tool_definition :: tool_definition where
  "search_tool_definition = \<lparr>td_name = ''search_course_content'', td_description = ''Search''\<rparr>"

text \<open>A client whose every response asks for a tool.\<close>

definition always_tool_use :: ai_generator where
  "always_tool_use =
     \<lparr>client = (\<lambda>made p. Inr tool_use_response),
      gen_model = ''claude-sonnet-4-20250514'', SYSTEM_PROMPT = ''system''\<rparr>"

text \<open>A client that asks for a tool while tools are attached and answers in text otherwise.\<close>

definition tools_then_text :: ai_generator where
  "tools_then_text =
     \<lparr>client = (\<lambda>made p. if tools p = None then Inr text_response else Inr tool_use_response),
      gen_model = ''claude-sonnet-4-20250514'', SYSTEM_PROMPT = ''system''\<rparr>"

text \<open>A client that asks for a tool once and answers the second call in text.\<close>

definition tool_then_text :: ai_generator where
  "tool_then_text =
     \<lparr>client = (\<lambda>made p. if made = [] then Inr tool_use_response else Inr text_response),
      gen_model = ''claude-sonnet-4-20250514'', SYSTEM_PROMPT = ''system''\<rparr>"

text \<open>A client that asks for a tool and fails on every later call.\<close>

definition tool_then_failure :: ai_generator where
  "tool_then_failure =
     \<lparr>client = (\<lambda>made p. if made = [] then Inr tool_use_response
                          else Inl (OtherError ''API error'')),
      gen_model = ''claude-sonnet-4-20250514'', SYSTEM_PROMPT = ''system''\<rparr>"

definition query_params :: "ai_generator \<Rightarrow> api_params" where
  "query_params self = first_params self ''Test query'' None (Some [search_tool_definition])"

text \<open>The variables of \<^verbatim>\<open>_handle_tool_execution\<close> on entry, after the first call.\<close>

definition entry_state :: "ai_generator \<Rightarrow> loop_state" where
  "entry_state self =
     \<lparr>msgs = messages (query_params self), current_response = tool_use_response,
      round_count = 0, api_log = [query_params self], tool_log = []\<rparr>"

text \<open>A backend with no match, one with the two matches of the source-tracking test.\<close>

definition empty_backend :: search_backend where
  "empty_backend = \<lparr>search = (\<lambda>q c l. Inr []), resolve_link = (\<lambda>m. Inr None)\<rparr>"

definition two_match_backend :: search_backend where
  "two_match_backend =
     \<lparr>search = (\<lambda>q c l. Inr
        [\<lparr>match_text = ''Content 1'', course_title = ''Course A'', lesson_number = Some 1\<rparr>,
         \<lparr>match_text = ''Content 2'', course_title = ''Course B'', lesson_number = None\<rparr>]),
      resolve_link = (\<lambda>m. if lesson_number m = None then Inr None
                           else Inr (Some ''https://link1.com''))\<rparr>"

definition search_registry :: "search_backend \<Rightarrow> search_args registry" where
  "search_registry backend =
     register (content_search_tool backend) \<lparr>registered = [], citation_slot = []\<rparr>"

text \<open>The response with two tool calls of the tests, and a manager that numbers its results.\<close>

definition two_calls_response :: response where
  "two_calls_response =
     \<lparr>stop_reason = ''tool_use'',
      content = [ToolUseBlock ''call_1'' ''search_course_content'' [(''query'', AStr ''topic 1'')],
                 ToolUseBlock ''call_2'' ''search_course_content'' [(''query'', AStr ''topic 2'')]]\<rparr>"

definition numbered_manager :: tool_manager where
  "numbered_manager lg n inp = Inr (if lg = [] then ''Search result 1'' else ''Search result 2'')"

definition two_calls_state :: loop_state where
  "two_calls_state =
     \<lparr>msgs = [Message ''user'' (Text ''Compare topics'')], current_response = two_calls_response,
      round_count = 0,
      api_log = [first_params tool_then_text ''Compare topics'' None (Some [search_tool_definition])],
      tool_log = []\<rparr>"


section \<open>The loop, case by case\<close>

lemma tool_loop_stop:
  "tmo = None \<or> \<not> (round_count s < R \<and> stop_reason (current_response s) = ''tool_use'')
     \<Longrightarrow> tool_loop self bp tmo R s = (None, s)"
  by (subst tool_loop.simps) (auto split: option.splits)

lemma tool_loop_raise:
  "round_count s < R \<Longrightarrow> stop_reason (current_response s) = ''tool_use''
     \<Longrightarrow> execute_tools tm (tool_log s) (content (current_response s)) [] = (Inl e, lg)
     \<Longrightarrow> tool_loop self bp (Some tm) R s =
           (Some e, s\<lparr>round_count := round_count s + 1,
                      msgs := msgs s @ [Message ''assistant'' (Blocks (content (current_response s)))],
                      tool_log := lg\<rparr>)"
  by (subst tool_loop.simps) simp

lemma tool_loop_break:
  "round_count s < R \<Longrightarrow> stop_reason (current_response s) = ''tool_use''
     \<Longrightarrow> execute_tools tm (tool_log s) (content (current_response s)) [] = (Inr rs, lg)
     \<Longrightarrow> R \<le> round_count s + 1
     \<Longrightarrow> tool_loop self bp (Some tm) R s = (None, after_round s rs lg)"
  by (subst tool_loop.simps) (simp add: after_round_def)

lemma tool_loop_fail:
  "round_count s < R \<Longrightarrow> stop_reason (current_response s) = ''tool_use''
     \<Longrightarrow> execute_tools tm (tool_log s) (content (current_response s)) [] = (Inr rs, lg)
     \<Longrightarrow> round_count s + 1 < R
     \<Longrightarrow> client self (api_log s) (next_params self bp (msgs (after_round s rs lg))) = Inl e
     \<Longrightarrow> tool_loop self bp (Some tm) R s =
           (None, (after_round s rs lg)
                    \<lparr>api_log := api_log s @ [next_params self bp (msgs (after_round s rs lg))]\<rparr>)"
  by (subst tool_loop.simps) (simp add: after_round_def Let_def)

lemma tool_loop_continue:
  "round_count s < R \<Longrightarrow> stop_reason (current_response s) = ''tool_use''
     \<Longrightarrow> execute_tools tm (tool_log s) (content (current_response s)) [] = (Inr rs, lg)
     \<Longrightarrow> round_count s + 1 < R
     \<Longrightarrow> client self (api_log s) (next_params self bp (msgs (after_round s rs lg))) = Inr r
     \<Longrightarrow> tool_loop self bp (Some tm) R s =
           tool_loop self bp (Some tm) R
             ((after_round s rs lg)
                \<lparr>api_log := api_log s @ [next_params self bp (msgs (after_round s rs lg))],
                  current_response := r\<rparr>)"
  by (subst tool_loop.simps) (simp add: after_round_def Let_def)

lemma tool_loop_cases_induct [case_names Stop Raise Break Fail Continue]:
  assumes stop: "\<And>s. tmo = None \<or> \<not> (round_count s < R \<and> stop_reason (current_response s) = ''tool_use'') \<Longrightarrow> P s"
    and raise: "\<And>s tm e lg. tmo = Some tm \<Longrightarrow> round_count s < R
        \<Longrightarrow> stop_reason (current_response s) = ''tool_use''
        \<Longrightarrow> execute_tools tm (tool_log s) (content (current_response s)) [] = (Inl e, lg) \<Longrightarrow> P s"
    and break: "\<And>s tm rs lg. tmo = Some tm \<Longrightarrow> round_count s < R
        \<Longrightarrow> stop_reason (current_response s) = ''tool_use''
        \<Longrightarrow> execute_tools tm (tool_log s) (content (current_response s)) [] = (Inr rs, lg)
        \<Longrightarrow> R \<le> round_count s + 1 \<Longrightarrow> P s"
    and fail: "\<And>s tm rs lg e. tmo = Some tm \<Longrightarrow> round_count s < R
        \<Longrightarrow> stop_reason (current_response s) = ''tool_use''
        \<Longrightarrow> execute_tools tm (tool_log s) (content (current_response s)) [] = (Inr rs, lg)
        \<Longrightarrow> round_count s + 1 < R
        \<Longrightarrow> client self (api_log s) (next_params self bp (msgs (after_round s rs lg))) = Inl e
        \<Longrightarrow> P s"
    and continue: "\<And>s tm rs lg r. tmo = Some tm \<Longrightarrow> round_count s < R
        \<Longrightarrow> stop_reason (current_response s) = ''tool_use''
        \<Longrightarrow> execute_tools tm (tool_log s) (content (current_response s)) [] = (Inr rs, lg)
        \<Longrightarrow> round_count s + 1 < R
        \<Longrightarrow> client self (api_log s) (next_params self bp (msgs (after_round s rs lg))) = Inr r
        \<Longrightarrow> P ((after_round s rs lg)
                \<lparr>api_log := api_log s @ [next_params self bp (msgs (after_round s rs lg))],
                  current_response := r\<rparr>)
        \<Longrightarrow> P s"
  shows "P s"
proof (induction s rule: measure_induct_rule [where f = "\<lambda>s. nat (R - round_count s)"])
  case (less s)
  show ?case
  proof (cases "tmo = None \<or> \<not> (round_count s < R \<and> stop_reason (current_response s) = ''tool_use'')")
    case True
    then show ?thesis by (rule stop)
  next
    case False
    then obtain tm where tm: "tmo = Some tm" and rc: "round_count s < R"
      and sr: "stop_reason (current_response s) = ''tool_use''" by auto
    obtain res lg where ex: "execute_tools tm (tool_log s) (content (current_response s)) [] = (res, lg)"
      by (cases "execute_tools tm (tool_log s) (content (current_response s)) []") auto
    show ?thesis
    proof (cases res)
      case (Inl e)
      with tm rc sr ex show ?thesis by (auto intro: raise)
    next
      case (Inr rs)
      show ?thesis
      proof (cases "R \<le> round_count s + 1")
        case True
        with tm rc sr ex Inr show ?thesis by (auto intro: break)
      next
        case False
        then have lt: "round_count s + 1 < R" by simp
        show ?thesis
        proof (cases "client self (api_log s) (next_params self bp (msgs (after_round s rs lg)))")
          case (Inl e)
          with tm rc sr ex Inr lt show ?thesis by (auto intro: fail)
        next
          case r: (Inr r)
          have "P ((after_round s rs lg)
                \<lparr>api_log := api_log s @ [next_params self bp (msgs (after_round s rs lg))],
                  current_response := r\<rparr>)"
            by (rule less.IH) (use rc in \<open>simp add: after_round_def\<close>)
          with tm rc sr ex Inr lt r show ?thesis by (auto intro: continue)
        qed
      qed
    qed
  qed
qed

text \<open>
  The run of \<^verbatim>\<open>_handle_tool_execution\<close> is \<open>run_from\<close> at the variables on entry, and
  a run from the head of an iteration whose continuation call returns is the run from the
  head of the next iteration: what is proved of \<open>run_from\<close> at every loop head holds of the
  rest of the handler's run from every iteration it reaches.
\<close>

lemma handle_tool_execution_run_from:
  "handle_tool_execution self initial_response bp tmo (Some R) made =
     (case run_from self bp tmo R
             \<lparr>msgs = messages bp, current_response = initial_response,
              round_count = 0, api_log = made, tool_log = []\<rparr> of
        (res, s) \<Rightarrow> (res, trace_of s))"
  by (simp add: handle_tool_execution_def)

lemma run_from_continue:
  "round_count s < R \<Longrightarrow> stop_reason (current_response s) = ''tool_use''
     \<Longrightarrow> execute_tools tm (tool_log s) (content (current_response s)) [] = (Inr rs, lg)
     \<Longrightarrow> round_count s + 1 < R
     \<Longrightarrow> client self (api_log s) (next_params self bp (msgs (after_round s rs lg))) = Inr r
     \<Longrightarrow> run_from self bp (Some tm) R s =
           run_from self bp (Some tm) R
             ((after_round s rs lg)
                \<lparr>api_log := api_log s @ [next_params self bp (msgs (after_round s rs lg))],
                  current_response := r\<rparr>)"
  by (simp add: run_from_def tool_loop_continue)

section \<open>Bounds on rounds and calls\<close>

lemma tool_loop_round_count:
  "tool_loop self bp tmo R s = (e, s') \<Longrightarrow>
     round_count s \<le> round_count s' \<and> round_count s' \<le> max (round_count s) R"
proof (induction s rule: tool_loop_cases_induct [where tmo = tmo and R = R and self = self and bp = bp])
  case (Stop s)
  then show ?case by (simp add: tool_loop_stop)
next
  case (Raise s tm e lg)
  then show ?case by (auto simp: tool_loop_raise)
next
  case (Break s tm rs lg)
  then show ?case by (auto simp: tool_loop_break after_round_def)
next
  case (Fail s tm rs lg e)
  then show ?case by (auto simp: tool_loop_fail after_round_def)
next
  case (Continue s tm rs lg r)
  then show ?case by (auto simp: tool_loop_continue after_round_def)
qed

lemma tool_loop_api_log_length:
  "tool_loop self bp tmo R s = (e, s') \<Longrightarrow>
     int (length (api_log s')) \<le> int (length (api_log s)) + max 0 (R - 1 - round_count s)"
proof (induction s rule: tool_loop_cases_induct [where tmo = tmo and R = R and self = self and bp = bp])
  case (Stop s)
  then show ?case by (simp add: tool_loop_stop)
next
  case (Raise s tm e lg)
  then show ?case by (auto simp: tool_loop_raise)
next
  case (Break s tm rs lg)
  then show ?case by (auto simp: tool_loop_break after_round_def)
next
  case (Fail s tm rs lg e)
  then show ?case by (auto simp: tool_loop_fail after_round_def)
next
  case (Continue s tm rs lg r)
  then show ?case by (auto simp: tool_loop_continue after_round_def)
qed

lemma final_response_api_log_length:
  "final_response self bp s = (res, s') \<Longrightarrow>
     round_count s' = round_count s \<and> length (api_log s') \<le> length (api_log s) + 1"
  by (auto simp: final_response_def split: if_splits sum.splits)

lemma run_from_bounds:
  assumes "run_from self bp tmo R s = (res, s')"
  shows "round_count s \<le> round_count s'"
    and "round_count s' \<le> max (round_count s) R"
    and "int (length (api_log s')) \<le> int (length (api_log s)) + max 0 (R - 1 - round_count s) + 1"
proof -
  obtain e s1 where l: "tool_loop self bp tmo R s = (e, s1)"
    by (cases "tool_loop self bp tmo R s") auto
  note rc = tool_loop_round_count [OF l] and al = tool_loop_api_log_length [OF l]
  show "round_count s \<le> round_count s'"
    using assms l rc by (cases e) (auto simp: run_from_def dest: final_response_api_log_length)
  show "round_count s' \<le> max (round_count s) R"
    using assms l rc by (cases e) (auto simp: run_from_def dest: final_response_api_log_length)
  show "int (length (api_log s')) \<le> int (length (api_log s)) + max 0 (R - 1 - round_count s) + 1"
    using assms l al by (cases e) (auto simp: run_from_def dest!: final_response_api_log_length)
qed

lemma handle_tool_execution_bounds:
  assumes "handle_tool_execution self r0 bp tmo (Some R) made = (res, tr)"
  shows "0 \<le> rounds tr" and "rounds tr \<le> max 0 R"
    and "int (length (calls tr)) \<le> int (length made) + max 1 R"
proof -
  let ?s0 = "\<lparr>msgs = messages bp, current_response = r0,
              round_count = 0, api_log = made, tool_log = []\<rparr>"
  obtain s' where r: "run_from self bp tmo R ?s0 = (res, s')" and tr: "tr = trace_of s'"
    using assms by (auto simp: handle_tool_execution_def split: prod.splits)
  from run_from_bounds [OF r] tr show "0 \<le> rounds tr" and "rounds tr \<le> max 0 R"
    and "int (length (calls tr)) \<le> int (length made) + max 1 R"
    by (auto simp: trace_of_def)
qed

lemma generate_response_bounds:
  assumes "generate_response self q h tls tmo = (res, tr)"
  shows "0 \<le> rounds tr" and "rounds tr \<le> 2" and "length (calls tr) \<le> 3"
proof -
  let ?p = "first_params self q h tls"
  show "0 \<le> rounds tr" and "rounds tr \<le> 2" and "length (calls tr) \<le> 3"
  proof (atomize (full), cases "client self [] ?p")
    case (Inl e)
    with assms show "0 \<le> rounds tr \<and> rounds tr \<le> 2 \<and> length (calls tr) \<le> 3"
      by (auto simp: generate_response_def Let_def)
  next
    case (Inr r)
    show "0 \<le> rounds tr \<and> rounds tr \<le> 2 \<and> length (calls tr) \<le> 3"
    proof (cases "stop_reason r = ''tool_use'' \<and> tmo \<noteq> None")
      case True
      with Inr assms have "handle_tool_execution self r ?p tmo (Some 2) [?p] = (res, tr)"
        by (simp add: generate_response_def Let_def)
      from handle_tool_execution_bounds [OF this] show ?thesis by simp
    next
      case False
      with Inr assms show ?thesis
        by (auto simp: generate_response_def Let_def)
    qed
  qed
qed

lemmas run_defs = generate_response_def handle_tool_execution_def run_from_def tool_loop.simps
  final_response_def first_params_def next_params_def final_params_def after_round_def
  trace_of_def first_text_def system_content_def Let_def
  tool_use_response_def text_response_def search_results_manager_def search_tool_definition_def
  always_tool_use_def tools_then_text_def tool_then_text_def tool_then_failure_def
  query_params_def entry_state_def

text \<open>
  Claim C1. Every run of \<^verbatim>\<open>generate_response\<close> counts at most 2 rounds and makes at
  most 2 + 1 calls to the Generation Client, 2 being the maximum it passes, whatever the
  client and the tool manager do, also when a dispatch raises. For
  \<^verbatim>\<open>_handle_tool_execution\<close> with any maximum \<open>R\<close> of at least one, entered after the
  one call that produced the initial response, the round counter never exceeds \<open>R\<close> and at
  most \<open>R + 1\<close> calls are made in all. For any \<open>R\<close> the bounds are \<open>max 0 R\<close> rounds and
  \<open>max 1 R + 1\<close> calls.
\<close>

theorem rounds_and_calls_bounded:
  "rounds (snd (generate_response self q h tls tmo)) \<le> 2
   \<and> length (calls (snd (generate_response self q h tls tmo))) \<le> 2 + 1
   \<and> (1 \<le> R \<longrightarrow>
         rounds (snd (handle_tool_execution self ir bp tmo (Some R) [p])) \<le> R
         \<and> int (length (calls (snd (handle_tool_execution self ir bp tmo (Some R) [p])))) \<le> R + 1)
   \<and> rounds (snd (handle_tool_execution self ir bp tmo (Some R) [p])) \<le> max 0 R
   \<and> int (length (calls (snd (handle_tool_execution self ir bp tmo (Some R) [p])))) \<le> max 1 R + 1"
proof -
  obtain res tr where h: "handle_tool_execution self ir bp tmo (Some R) [p] = (res, tr)"
    by (cases "handle_tool_execution self ir bp tmo (Some R) [p]") auto
  obtain res' tr' where g: "generate_response self q h tls tmo = (res', tr')"
    by (cases "generate_response self q h tls tmo") auto
  from handle_tool_execution_bounds [OF h] generate_response_bounds [OF g] h g
  show ?thesis by auto
qed

text \<open>
  The bounds of C1 are reached by a client that always asks for a tool, in a query and in
  the handler at a maximum of 2.
\<close>

theorem rounds_and_calls_bounded_witness:
  "(1::int) \<le> 2
   \<and> rounds (snd (generate_response always_tool_use ''Test query'' None
       (Some [search_tool_definition]) (Some search_results_manager))) = 2
   \<and> length (calls (snd (generate_response always_tool_use ''Test query'' None
       (Some [search_tool_definition]) (Some search_results_manager)))) = 3
   \<and> rounds (snd (handle_tool_execution always_tool_use tool_use_response
       (query_params always_tool_use) (Some search_results_manager) (Some 2)
       [query_params always_tool_use])) = 2
   \<and> length (calls (snd (handle_tool_execution always_tool_use tool_use_response
       (query_params always_tool_use) (Some search_results_manager) (Some 2)
       [query_params always_tool_use]))) = 3"
proof -
  have "2 \<le> rounds (snd (generate_response always_tool_use ''Test query'' None
       (Some [search_tool_definition]) (Some search_results_manager)))
     \<and> 3 \<le> length (calls (snd (generate_response always_tool_use ''Test query'' None
       (Some [search_tool_definition]) (Some search_results_manager))))
     \<and> 2 \<le> rounds (snd (handle_tool_execution always_tool_use tool_use_response
       (query_params always_tool_use) (Some search_results_manager) (Some 2)
       [query_params always_tool_use]))
     \<and> 3 \<le> length (calls (snd (handle_tool_execution always_tool_use tool_use_response
       (query_params always_tool_use) (Some search_results_manager) (Some 2)
       [query_params always_tool_use])))"
    by (simp add: run_defs)
  with rounds_and_calls_bounded [where self = always_tool_use and ir = tool_use_response
      and bp = "query_params always_tool_use" and tmo = "Some search_results_manager" and R = 2
      and p = "query_params always_tool_use" and q = "''Test query''" and h = None
      and tls = "Some [search_tool_definition]"]
  show ?thesis by simp
qed

section \<open>The search tool and the registry\<close>

text \<open>
  Claim C7. When the backend returns no match and no error, the Content Search Tool
  returns the template selected by the filters supplied: neither, the course only, the
  lesson only, or both.
\<close>

theorem empty_result_templates:
  assumes "search backend q cf lf = Inr []"
  shows "fst (search_execute backend q cf lf) =
     (case (cf, lf) of
        (None, None) \<Rightarrow> ''No relevant content found.''
      | (Some course, None) \<Rightarrow>
          ''No relevant content found in course '' @ [CHR 0x27] @ course @ [CHR 0x27] @ ''.''
      | (None, Some n) \<Rightarrow> ''No relevant content found in lesson '' @ str_int n @ ''.''
      | (Some course, Some n) \<Rightarrow>
          ''No relevant content found in course '' @ [CHR 0x27] @ course @ [CHR 0x27]
            @ '' in lesson '' @ str_int n @ ''.'')"
  using assms by (simp add: search_execute_def empty_result_message_def)

lemma str_int_99: "str_int 99 = ''99''"
  by (simp add: str_int_def str_nat.simps digits_def)

lemma str_int_1: "str_int 1 = ''1''"
  by (simp add: str_int_def str_nat.simps digits_def)

text \<open>
  The four messages of the tests, on a backend without matches.
\<close>

theorem empty_result_templates_witness:
  "search empty_backend ''topic'' None None = Inr []
   \<and> fst (search_execute empty_backend ''topic'' None None) = ''No relevant content found.''
   \<and> fst (search_execute empty_backend ''topic'' (Some ''Nonexistent Course'') None)
       = ''No relevant content found in course '' @ [CHR 0x27] @ ''Nonexistent Course''
           @ [CHR 0x27] @ ''.''
   \<and> fst (search_execute empty_backend ''topic'' None (Some 99))
       = ''No relevant content found in lesson 99.''
   \<and> fst (search_execute empty_backend ''topic'' (Some ''Test Course'') (Some 1))
       = ''No relevant content found in course '' @ [CHR 0x27] @ ''Test Course''
           @ [CHR 0x27] @ '' in lesson 1.''"
proof -
  have e: "search empty_backend q c l = Inr []" for q c l
    by (simp add: empty_backend_def)
  show ?thesis
    using empty_result_templates [OF e, of "''topic''" None None]
      empty_result_templates [OF e, of "''topic''" "Some ''Nonexistent Course''" None]
      empty_result_templates [OF e, of "''topic''" None "Some 99"]
      empty_result_templates [OF e, of "''topic''" "Some ''Test Course''" "Some 1"]
    by (simp add: e str_int_99 str_int_1)
qed

text \<open>
  Claim C8. After the Content Search Tool has run through the registry on a search that
  gave the matches \<open>ms\<close>, the citation slot holds one entry per match, in order: the
  display text is \<^verbatim>\<open><course> - Lesson <n>\<close> when the match has a lesson number and
  \<^verbatim>\<open><course>\<close> otherwise, the link is the resolved link or null;
  \<^verbatim>\<open>resetCitations()\<close> then leaves the slot empty.
\<close>

theorem citations_one_per_match:
  assumes "map_of (registered reg) name = Some (content_search_tool backend)"
    and "search backend (query a) (courseFilter a) (lessonFilter a) = Inr ms"
  shows "getLastCitations (snd (dispatch reg name a)) =
           map (\<lambda>m. \<lparr>displayText =
                        (case lesson_number m of
                           None \<Rightarrow> course_title m
                         | Some n \<Rightarrow> course_title m @ '' - Lesson '' @ str_int n),
                      link = (case resolve_link backend m of Inl e \<Rightarrow> None | Inr l \<Rightarrow> l)\<rparr>) ms
         \<and> length (getLastCitations (snd (dispatch reg name a))) = length ms
         \<and> getLastCitations (resetCitations (snd (dispatch reg name a))) = []"
  using assms
  by (simp add: dispatch_def content_search_tool_def search_execute_def getLastCitations_def
        resetCitations_def cite_def match_label_def)

text \<open>
  The two matches of the source-tracking test.
\<close>

theorem citations_one_per_match_witness:
  "getLastCitations (snd (dispatch (search_registry two_match_backend) ''search_course_content''
       \<lparr>query = ''test query'', courseFilter = None, lessonFilter = None\<rparr>)) =
     [\<lparr>displayText = ''Course A - Lesson 1'', link = Some ''https://link1.com''\<rparr>,
      \<lparr>displayText = ''Course B'', link = None\<rparr>]
   \<and> getLastCitations (resetCitations (snd (dispatch (search_registry two_match_backend)
       ''search_course_content''
       \<lparr>query = ''test query'', courseFilter = None, lessonFilter = None\<rparr>))) = []"
proof -
  have r: "map_of (registered (search_registry two_match_backend)) ''search_course_content''
             = Some (content_search_tool two_match_backend)"
    by (simp add: search_registry_def register_def content_search_tool_def)
  have s: "search two_match_backend
             (query \<lparr>query = ''test query'', courseFilter = None, lessonFilter = None\<rparr>)
             (courseFilter \<lparr>query = ''test query'', courseFilter = None, lessonFilter = None\<rparr>)
             (lessonFilter \<lparr>query = ''test query'', courseFilter = None, lessonFilter = None\<rparr>)
           = Inr [\<lparr>match_text = ''Content 1'', course_title = ''Course A'', lesson_number = Some 1\<rparr>,
                  \<lparr>match_text = ''Content 2'', course_title = ''Course B'', lesson_number = None\<rparr>]"
    by (simp add: two_match_backend_def)
  show ?thesis
    using citations_one_per_match [OF r s]
    by (simp add: two_match_backend_def str_int_1)
qed

text \<open>
  Claim C9. For a name that is not registered and any arguments, \<^verbatim>\<open>dispatch\<close>
  returns the text \<^verbatim>\<open>Tool '<name>' not found\<close>; it returns a value, the registry
  unchanged, and does not raise.
\<close>

theorem dispatch_unknown_tool:
  assumes "name \<notin> fst ` set (registered reg)"
  shows "dispatch reg name arguments =
           (''Tool '' @ [CHR 0x27] @ name @ [CHR 0x27] @ '' not found'', reg)"
proof -
  from assms have "map_of (registered reg) name = None"
    by (simp add: map_of_eq_None_iff)
  then show ?thesis by (simp add: dispatch_def)
qed

text \<open>
  The unknown tool of the integration test.
\<close>

theorem dispatch_unknown_tool_witness:
  "''unknown_tool'' \<notin> fst ` set (registered (search_registry two_match_backend))
   \<and> fst (dispatch (search_registry two_match_backend) ''unknown_tool''
        \<lparr>query = ''test'', courseFilter = None, lessonFilter = None\<rparr>)
      = ''Tool '' @ [CHR 0x27] @ ''unknown_tool'' @ [CHR 0x27] @ '' not found''"
proof -
  have n: "''unknown_tool'' \<notin> fst ` set (registered (search_registry two_match_backend))"
    by (simp add: search_registry_def register_def content_search_tool_def)
  show ?thesis
    using n dispatch_unknown_tool [OF n,
        of "\<lparr>query = ''test'', courseFilter = None, lessonFilter = None\<rparr>"]
    by simp
qed

section \<open>No tool manager\<close>




section \<open>A round of dispatches\<close>

lemma execute_tools_log:
  "execute_tools tm lg bs acc = (Inr rs, lg') \<Longrightarrow>
     lg' = lg @ map (\<lambda>(i, n, inp). (n, inp)) (tool_use_requests bs)"
  by (induction tm lg bs acc rule: execute_tools.induct) (auto split: sum.splits)

lemma execute_tools_results:
  "execute_tools tm lg bs acc = (Inr rs, lg') \<Longrightarrow>
     \<exists>new. rs = acc @ new
       \<and> map tool_use_id new = map fst (tool_use_requests bs)
       \<and> (\<forall>k < length new.
            tr_type (new ! k) = ''tool_result''
            \<and> tm (lg @ take k (map (\<lambda>(i, n, inp). (n, inp)) (tool_use_requests bs)))
                 (fst (snd (tool_use_requests bs ! k))) (snd (snd (tool_use_requests bs ! k)))
               = Inr (tr_content (new ! k)))"
proof (induction tm lg bs acc rule: execute_tools.induct)
  case (1 tm lg tool_results)
  then show ?case by simp
next
  case (2 tm lg t bs tool_results)
  then show ?case by simp
next
  case (3 tm lg i n inp bs tool_results)
  from "3.prems" obtain out where out: "tm lg n inp = Inr out"
    and ex: "execute_tools tm (lg @ [(n, inp)]) bs
               (tool_results @ [\<lparr>tr_type = ''tool_result'', tool_use_id = i, tr_content = out\<rparr>])
             = (Inr rs, lg')"
    by (auto split: sum.splits)
  from "3.IH" [OF out ex] obtain new where
    rs: "rs = (tool_results @ [\<lparr>tr_type = ''tool_result'', tool_use_id = i, tr_content = out\<rparr>]) @ new"
    and ids: "map tool_use_id new = map fst (tool_use_requests bs)"
    and each: "\<forall>k < length new.
            tr_type (new ! k) = ''tool_result''
            \<and> tm ((lg @ [(n, inp)]) @ take k (map (\<lambda>(i, n, inp). (n, inp)) (tool_use_requests bs)))
                 (fst (snd (tool_use_requests bs ! k))) (snd (snd (tool_use_requests bs ! k)))
               = Inr (tr_content (new ! k))"
    by blast
  let ?new = "\<lparr>tr_type = ''tool_result'', tool_use_id = i, tr_content = out\<rparr> # new"
  have "rs = tool_results @ ?new" using rs by simp
  moreover have "map tool_use_id ?new = map fst (tool_use_requests (ToolUseBlock i n inp # bs))"
    using ids by simp
  moreover have "\<forall>k < length ?new.
            tr_type (?new ! k) = ''tool_result''
            \<and> tm (lg @ take k (map (\<lambda>(i, n, inp). (n, inp))
                                  (tool_use_requests (ToolUseBlock i n inp # bs))))
                 (fst (snd (tool_use_requests (ToolUseBlock i n inp # bs) ! k)))
                 (snd (snd (tool_use_requests (ToolUseBlock i n inp # bs) ! k)))
               = Inr (tr_content (?new ! k))"
  proof (intro allI impI)
    fix k assume k: "k < length ?new"
    show "tr_type (?new ! k) = ''tool_result''
            \<and> tm (lg @ take k (map (\<lambda>(i, n, inp). (n, inp))
                                  (tool_use_requests (ToolUseBlock i n inp # bs))))
                 (fst (snd (tool_use_requests (ToolUseBlock i n inp # bs) ! k)))
                 (snd (snd (tool_use_requests (ToolUseBlock i n inp # bs) ! k)))
               = Inr (tr_content (?new ! k))"
    proof (cases k)
      case 0
      then show ?thesis using out by simp
    next
      case (Suc j)
      with k have "j < length new" by simp
      with each Suc show ?thesis by simp
    qed
  qed
  ultimately show ?case by blast
qed

lemma execute_tools_from_nil:
  assumes "execute_tools tm lg bs [] = (Inr rs, lg')"
  shows "lg' = lg @ map (\<lambda>(i, n, inp). (n, inp)) (tool_use_requests bs)"
    and "map tool_use_id rs = map fst (tool_use_requests bs)"
    and "length rs = length (tool_use_requests bs)"
    and "\<forall>k < length (tool_use_requests bs).
            tr_type (rs ! k) = ''tool_result''
            \<and> tm (lg @ take k (map (\<lambda>(i, n, inp). (n, inp)) (tool_use_requests bs)))
                 (fst (snd (tool_use_requests bs ! k))) (snd (snd (tool_use_requests bs ! k)))
               = Inr (tr_content (rs ! k))"
proof -
  from execute_tools_results [OF assms] obtain new where n: "rs = [] @ new"
    "map tool_use_id new = map fst (tool_use_requests bs)"
    "\<forall>k < length new.
            tr_type (new ! k) = ''tool_result''
            \<and> tm (lg @ take k (map (\<lambda>(i, n, inp). (n, inp)) (tool_use_requests bs)))
                 (fst (snd (tool_use_requests bs ! k))) (snd (snd (tool_use_requests bs ! k)))
               = Inr (tr_content (new ! k))"
    by blast
  show "lg' = lg @ map (\<lambda>(i, n, inp). (n, inp)) (tool_use_requests bs)"
    by (rule execute_tools_log [OF assms])
  from n show "map tool_use_id rs = map fst (tool_use_requests bs)" by simp
  then have "length (map tool_use_id rs) = length (map fst (tool_use_requests bs))" by simp
  then show l: "length rs = length (tool_use_requests bs)" by simp
  from n l show "\<forall>k < length (tool_use_requests bs).
            tr_type (rs ! k) = ''tool_result''
            \<and> tm (lg @ take k (map (\<lambda>(i, n, inp). (n, inp)) (tool_use_requests bs)))
                 (fst (snd (tool_use_requests bs ! k))) (snd (snd (tool_use_requests bs ! k)))
               = Inr (tr_content (rs ! k))" by simp
qed

lemma tool_loop_round:
  assumes "round_count s < R" and "stop_reason (current_response s) = ''tool_use''"
    and "execute_tools tm (tool_log s) (content (current_response s)) [] = (Inr rs, lg)"
  shows "tool_loop self bp (Some tm) R s =
     (if R \<le> round_count s + 1 then (None, after_round s rs lg)
      else
        (case client self (api_log s) (next_params self bp (msgs (after_round s rs lg))) of
           Inl e \<Rightarrow>
             (None, (after_round s rs lg)
                \<lparr>api_log := api_log s @ [next_params self bp (msgs (after_round s rs lg))]\<rparr>)
         | Inr r \<Rightarrow>
             tool_loop self bp (Some tm) R
               ((after_round s rs lg)
                  \<lparr>api_log := api_log s @ [next_params self bp (msgs (after_round s rs lg))],
                    current_response := r\<rparr>)))"
  using assms
  by (auto simp: tool_loop_break tool_loop_fail tool_loop_continue split: sum.splits)

text \<open>
  Claim C2. In a loop iteration on a response that asks for tools (at least one
  \<^verbatim>\<open>tool_use\<close> block, every dispatch returning): the requests are dispatched one after
  the other in the order of the response, each after the dispatches before it; the results
  are one per request, in the same order, each with the id of its request and the text its
  dispatch returned; the round counter goes up by one whatever the number of requests; and
  the loop goes on with the assistant turn and then the tool-result turn appended, which
  the next call to the client, if any, already carries.
\<close>

theorem dispatch_round:
  assumes "round_count s < R" and "stop_reason (current_response s) = ''tool_use''"
    and "execute_tools tm (tool_log s) (content (current_response s)) [] = (Inr rs, lg)"
    and "tool_use_requests (content (current_response s)) \<noteq> []"
  shows "lg = tool_log s
              @ map (\<lambda>(i, n, inp). (n, inp)) (tool_use_requests (content (current_response s)))
    \<and> map tool_use_id rs = map fst (tool_use_requests (content (current_response s)))
    \<and> (\<forall>k < length (tool_use_requests (content (current_response s))).
          tm (tool_log s @ take k (map (\<lambda>(i, n, inp). (n, inp))
                                     (tool_use_requests (content (current_response s)))))
             (fst (snd (tool_use_requests (content (current_response s)) ! k)))
             (snd (snd (tool_use_requests (content (current_response s)) ! k)))
           = Inr (tr_content (rs ! k)))
    \<and> (\<forall>s1. s1 = s\<lparr>round_count := round_count s + 1,
                    msgs := msgs s @ [Message ''assistant'' (Blocks (content (current_response s))),
                                      Message ''user'' (ToolResults rs)],
                    tool_log := lg\<rparr> \<longrightarrow>
          tool_loop self bp (Some tm) R s =
            (if R \<le> round_count s1 then (None, s1)
             else
               (case client self (api_log s) (next_params self bp (msgs s1)) of
                  Inl e \<Rightarrow> (None, s1\<lparr>api_log := api_log s @ [next_params self bp (msgs s1)]\<rparr>)
                | Inr r \<Rightarrow>
                    tool_loop self bp (Some tm) R
                      (s1\<lparr>api_log := api_log s @ [next_params self bp (msgs s1)],
                          current_response := r\<rparr>))))"
proof -
  note e = execute_tools_from_nil [OF assms(3)]
  from e(3) assms(4) have ne: "rs \<noteq> []" by auto
  have a: "after_round s rs lg =
             s\<lparr>round_count := round_count s + 1,
               msgs := msgs s @ [Message ''assistant'' (Blocks (content (current_response s))),
                                 Message ''user'' (ToolResults rs)],
               tool_log := lg\<rparr>"
    using ne by (simp add: after_round_def)
  have l: "\<forall>s1. s1 = s\<lparr>round_count := round_count s + 1,
                    msgs := msgs s @ [Message ''assistant'' (Blocks (content (current_response s))),
                                      Message ''user'' (ToolResults rs)],
                    tool_log := lg\<rparr> \<longrightarrow>
          tool_loop self bp (Some tm) R s =
            (if R \<le> round_count s1 then (None, s1)
             else
               (case client self (api_log s) (next_params self bp (msgs s1)) of
                  Inl e \<Rightarrow> (None, s1\<lparr>api_log := api_log s @ [next_params self bp (msgs s1)]\<rparr>)
                | Inr r \<Rightarrow>
                    tool_loop self bp (Some tm) R
                      (s1\<lparr>api_log := api_log s @ [next_params self bp (msgs s1)],
                          current_response := r\<rparr>)))"
  proof (intro allI impI)
    fix s1
    assume "s1 = s\<lparr>round_count := round_count s + 1,
                    msgs := msgs s @ [Message ''assistant'' (Blocks (content (current_response s))),
                                      Message ''user'' (ToolResults rs)],
                    tool_log := lg\<rparr>"
    with a have ar: "after_round s rs lg = s1" by simp
    have "round_count (after_round s rs lg) = round_count s + 1" by (simp add: after_round_def)
    with ar have rc: "round_count s + 1 = round_count s1" by simp
    from tool_loop_round [OF assms(1-3), of self bp]
    show "tool_loop self bp (Some tm) R s =
            (if R \<le> round_count s1 then (None, s1)
             else
               (case client self (api_log s) (next_params self bp (msgs s1)) of
                  Inl e \<Rightarrow> (None, s1\<lparr>api_log := api_log s @ [next_params self bp (msgs s1)]\<rparr>)
                | Inr r \<Rightarrow>
                    tool_loop self bp (Some tm) R
                      (s1\<lparr>api_log := api_log s @ [next_params self bp (msgs s1)],
                          current_response := r\<rparr>)))"
      unfolding ar rc .
  qed
  from e(4) have d: "\<forall>k < length (tool_use_requests (content (current_response s))).
          tm (tool_log s @ take k (map (\<lambda>(i, n, inp). (n, inp))
                                     (tool_use_requests (content (current_response s)))))
             (fst (snd (tool_use_requests (content (current_response s)) ! k)))
             (snd (snd (tool_use_requests (content (current_response s)) ! k)))
           = Inr (tr_content (rs ! k))"
    by blast
  from e(1) e(2) d l show ?thesis by blast
qed


text \<open>
  The response with two tool calls: both are dispatched in order, each result carries its
  request's id, one round is counted and the two turns are in the transcript.
\<close>

theorem dispatch_round_witness:
  "round_count two_calls_state < 2
   \<and> stop_reason (current_response two_calls_state) = ''tool_use''
   \<and> execute_tools numbered_manager (tool_log two_calls_state)
        (content (current_response two_calls_state)) [] =
      (Inr [\<lparr>tr_type = ''tool_result'', tool_use_id = ''call_1'', tr_content = ''Search result 1''\<rparr>,
            \<lparr>tr_type = ''tool_result'', tool_use_id = ''call_2'', tr_content = ''Search result 2''\<rparr>],
       [(''search_course_content'', [(''query'', AStr ''topic 1'')]),
        (''search_course_content'', [(''query'', AStr ''topic 2'')])])
   \<and> tool_use_requests (content (current_response two_calls_state)) \<noteq> []
   \<and> fst (tool_loop tool_then_text (query_params tool_then_text) (Some numbered_manager) 2
            two_calls_state) = None
   \<and> round_count (snd (tool_loop tool_then_text (query_params tool_then_text)
            (Some numbered_manager) 2 two_calls_state)) = 1
   \<and> msgs (snd (tool_loop tool_then_text (query_params tool_then_text)
            (Some numbered_manager) 2 two_calls_state)) =
       [Message ''user'' (Text ''Compare topics''),
        Message ''assistant'' (Blocks (content two_calls_response)),
        Message ''user'' (ToolResults
          [\<lparr>tr_type = ''tool_result'', tool_use_id = ''call_1'', tr_content = ''Search result 1''\<rparr>,
           \<lparr>tr_type = ''tool_result'', tool_use_id = ''call_2'', tr_content = ''Search result 2''\<rparr>])]"
proof -
  let ?rs = "[\<lparr>tr_type = ''tool_result'', tool_use_id = ''call_1'', tr_content = ''Search result 1''\<rparr>,
            \<lparr>tr_type = ''tool_result'', tool_use_id = ''call_2'', tr_content = ''Search result 2''\<rparr>]"
  let ?lg = "[(''search_course_content'', [(''query'', AStr ''topic 1'')]),
        (''search_course_content'', [(''query'', AStr ''topic 2'')])]"
  let ?s1 = "two_calls_state\<lparr>round_count := round_count two_calls_state + 1,
      msgs := msgs two_calls_state
        @ [Message ''assistant'' (Blocks (content (current_response two_calls_state))),
           Message ''user'' (ToolResults ?rs)],
      tool_log := ?lg\<rparr>"
  let ?bp = "query_params tool_then_text"
  have h1: "round_count two_calls_state < 2"
    and h2: "stop_reason (current_response two_calls_state) = ''tool_use''"
    and h3: "execute_tools numbered_manager (tool_log two_calls_state)
        (content (current_response two_calls_state)) [] = (Inr ?rs, ?lg)"
    and h4: "tool_use_requests (content (current_response two_calls_state)) \<noteq> []"
    by (simp_all add: two_calls_state_def two_calls_response_def numbered_manager_def)
  from dispatch_round [OF h1 h2 h3 h4, of tool_then_text ?bp]
  have "tool_loop tool_then_text ?bp (Some numbered_manager) 2 two_calls_state =
            (if 2 \<le> round_count ?s1 then (None, ?s1)
             else
               (case client tool_then_text (api_log two_calls_state)
                       (next_params tool_then_text ?bp (msgs ?s1)) of
                  Inl e \<Rightarrow> (None, ?s1\<lparr>api_log := api_log two_calls_state
                                  @ [next_params tool_then_text ?bp (msgs ?s1)]\<rparr>)
                | Inr r \<Rightarrow>
                    tool_loop tool_then_text ?bp (Some numbered_manager) 2
                      (?s1\<lparr>api_log := api_log two_calls_state
                                  @ [next_params tool_then_text ?bp (msgs ?s1)],
                          current_response := r\<rparr>)))"
    by blast
  also have "\<dots> = (None, ?s1\<lparr>api_log := api_log two_calls_state
                                  @ [next_params tool_then_text ?bp (msgs ?s1)],
                          current_response := text_response\<rparr>)"
    by (simp add: tool_loop_stop two_calls_state_def tool_then_text_def text_response_def)
  finally show ?thesis
    using h1 h2 h3 h4 by (simp add: two_calls_state_def)
qed


section \<open>Leaving the loop\<close>

lemma run_from_after_loop:
  "tool_loop self bp tmo R s = (None, s') \<Longrightarrow> run_from self bp tmo R s = final_response self bp s'"
  by (simp add: run_from_def)

lemma final_response_pending:
  assumes "stop_reason (current_response s) = ''tool_use''"
  shows "final_response self bp s =
     (case client self (api_log s) (final_params self bp (msgs s)) of
        Inl e \<Rightarrow> Inr apology
      | Inr r \<Rightarrow> (case first_text r of Inl e \<Rightarrow> Inr apology | Inr t \<Rightarrow> Inr t),
      s\<lparr>api_log := api_log s @ [final_params self bp (msgs s)]\<rparr>)"
  using assms by (simp add: final_response_def split: sum.splits)

text \<open>
  Claim C3. When the continuation call of a round fails, the loop ends there: no further
  dispatch, the transcript \<open>ms\<close> of that round kept (the tool results included), exactly
  one more call, without tools and with that transcript; when that call fails too the
  fixed apology text, spelled out below, is returned as a value.
\<close>

theorem continuation_failure:
  assumes "round_count s < R" and "stop_reason (current_response s) = ''tool_use''"
    and "execute_tools tm (tool_log s) (content (current_response s)) [] = (Inr rs, lg)"
    and "round_count s + 1 < R"
    and "ms = msgs s @ [Message ''assistant'' (Blocks (content (current_response s)))]
               @ (if rs \<noteq> [] then [Message ''user'' (ToolResults rs)] else [])"
    and "client self (api_log s) (next_params self bp ms) = Inl e"
  shows "run_from self bp (Some tm) R s =
     (case client self (api_log s @ [next_params self bp ms]) (final_params self bp ms) of
        Inl e' \<Rightarrow> Inr apology
      | Inr r \<Rightarrow> (case first_text r of Inl e' \<Rightarrow> Inr apology | Inr t \<Rightarrow> Inr t),
      s\<lparr>round_count := round_count s + 1, msgs := ms, tool_log := lg,
        api_log := api_log s @ [next_params self bp ms, final_params self bp ms]\<rparr>)
    \<and> tools (final_params self bp ms) = None
    \<and> messages (final_params self bp ms) = ms
    \<and> ((\<exists>e'. client self (api_log s @ [next_params self bp ms]) (final_params self bp ms) = Inl e')
         \<longrightarrow> fst (run_from self bp (Some tm) R s)
               = Inr ''I apologize, but I encountered an error while generating the final response.'')"
proof -
  have m: "msgs (after_round s rs lg) = ms"
    using assms(5) by (simp add: after_round_def)
  have l: "tool_loop self bp (Some tm) R s =
             (None, (after_round s rs lg)\<lparr>api_log := api_log s @ [next_params self bp ms]\<rparr>)"
    using tool_loop_fail [OF assms(1-4), of self bp e] assms(6) by (simp add: m)
  have p: "stop_reason (current_response
             ((after_round s rs lg)\<lparr>api_log := api_log s @ [next_params self bp ms]\<rparr>)) = ''tool_use''"
    using assms(2) by (simp add: after_round_def)
  have r: "run_from self bp (Some tm) R s =
     (case client self (api_log s @ [next_params self bp ms]) (final_params self bp ms) of
        Inl e' \<Rightarrow> Inr apology
      | Inr r \<Rightarrow> (case first_text r of Inl e' \<Rightarrow> Inr apology | Inr t \<Rightarrow> Inr t),
      s\<lparr>round_count := round_count s + 1, msgs := ms, tool_log := lg,
        api_log := api_log s @ [next_params self bp ms, final_params self bp ms]\<rparr>)"
    unfolding run_from_after_loop [OF l] final_response_pending [OF p]
    using assms(5) by (simp add: after_round_def)
  have a: "(\<exists>e'. client self (api_log s @ [next_params self bp ms]) (final_params self bp ms) = Inl e')
         \<longrightarrow> fst (run_from self bp (Some tm) R s)
               = Inr ''I apologize, but I encountered an error while generating the final response.''"
    unfolding r by (auto simp: apology_def)
  from r a show ?thesis by (simp add: final_params_def)
qed

text \<open>
  The continuation call fails after the first round; so does the final call, and the query
  returns the apology text.
\<close>

theorem continuation_failure_witness:
  "round_count (entry_state tool_then_failure) < 2
   \<and> stop_reason (current_response (entry_state tool_then_failure)) = ''tool_use''
   \<and> round_count (entry_state tool_then_failure) + 1 < 2
   \<and> client tool_then_failure (api_log (entry_state tool_then_failure))
        (next_params tool_then_failure (query_params tool_then_failure)
           [Message ''user'' (Text ''Test query''),
            Message ''assistant'' (Blocks (content tool_use_response)),
            Message ''user'' (ToolResults
              [\<lparr>tr_type = ''tool_result'', tool_use_id = ''call_1'',
                tr_content = ''Search results''\<rparr>])])
      = Inl (OtherError ''API error'')
   \<and> fst (generate_response tool_then_failure ''Test query'' None
             (Some [search_tool_definition]) (Some search_results_manager))
      = Inr ''I apologize, but I encountered an error while generating the final response.''
   \<and> map tools (calls (snd (generate_response tool_then_failure ''Test query'' None
             (Some [search_tool_definition]) (Some search_results_manager))))
      = [Some [search_tool_definition], Some [search_tool_definition], None]
   \<and> dispatches (snd (generate_response tool_then_failure ''Test query'' None
             (Some [search_tool_definition]) (Some search_results_manager)))
      = [(''search_course_content'', [(''query'', AStr ''programming'')])]"
proof -
  let ?G = tool_then_failure
  let ?bp = "query_params ?G"
  let ?rs = "[\<lparr>tr_type = ''tool_result'', tool_use_id = ''call_1'',
                tr_content = ''Search results''\<rparr>]"
  let ?lg = "[(''search_course_content'', [(''query'', AStr ''programming'')])]"
  let ?ms = "[Message ''user'' (Text ''Test query''),
            Message ''assistant'' (Blocks (content tool_use_response)),
            Message ''user'' (ToolResults ?rs)]"
  have h1: "round_count (entry_state ?G) < 2"
    and h2: "stop_reason (current_response (entry_state ?G)) = ''tool_use''"
    and h3: "execute_tools search_results_manager (tool_log (entry_state ?G))
               (content (current_response (entry_state ?G))) [] = (Inr ?rs, ?lg)"
    and h4: "round_count (entry_state ?G) + 1 < 2"
    and h5: "?ms = msgs (entry_state ?G)
               @ [Message ''assistant'' (Blocks (content (current_response (entry_state ?G))))]
               @ (if ?rs \<noteq> [] then [Message ''user'' (ToolResults ?rs)] else [])"
    and h6: "client ?G (api_log (entry_state ?G)) (next_params ?G ?bp ?ms)
               = Inl (OtherError ''API error'')"
    by (simp_all add: entry_state_def tool_use_response_def search_results_manager_def
          query_params_def first_params_def tool_then_failure_def)
  from continuation_failure [OF h1 h2 h3 h4 h5 h6]
  have r: "run_from ?G ?bp (Some search_results_manager) 2 (entry_state ?G) =
     (case client ?G (api_log (entry_state ?G) @ [next_params ?G ?bp ?ms])
             (final_params ?G ?bp ?ms) of
        Inl e' \<Rightarrow> Inr apology
      | Inr r \<Rightarrow> (case first_text r of Inl e' \<Rightarrow> Inr apology | Inr t \<Rightarrow> Inr t),
      (entry_state ?G)\<lparr>round_count := round_count (entry_state ?G) + 1, msgs := ?ms,
        tool_log := ?lg,
        api_log := api_log (entry_state ?G) @ [next_params ?G ?bp ?ms, final_params ?G ?bp ?ms]\<rparr>)"
    by blast
  have c: "client ?G (api_log (entry_state ?G) @ [next_params ?G ?bp ?ms])
             (final_params ?G ?bp ?ms) = Inl (OtherError ''API error'')"
    by (simp add: tool_then_failure_def)
  have g: "generate_response ?G ''Test query'' None (Some [search_tool_definition])
             (Some search_results_manager)
           = (case run_from ?G ?bp (Some search_results_manager) 2 (entry_state ?G) of
                (res, s) \<Rightarrow> (res, trace_of s))"
    by (simp add: generate_response_def handle_tool_execution_def entry_state_def
          query_params_def Let_def tool_then_failure_def tool_use_response_def)
  show ?thesis
    using h1 h2 h4 h6 unfolding g r c
    by (simp add: trace_of_def entry_state_def query_params_def first_params_def
          next_params_def final_params_def search_tool_definition_def apology_def)
qed

text \<open>
  Claim C4. When the round counter reaches the maximum \<open>R\<close> in a round (the response of
  that round asked for tools), exactly one more call is made, with the full transcript
  \<open>ms\<close> and neither \<^verbatim>\<open>tools\<close> nor \<^verbatim>\<open>tool_choice\<close>, and the text of its response is
  the answer.
\<close>

theorem forced_final_call:
  assumes "round_count s < R" and "stop_reason (current_response s) = ''tool_use''"
    and "execute_tools tm (tool_log s) (content (current_response s)) [] = (Inr rs, lg)"
    and "R \<le> round_count s + 1"
    and "ms = msgs s @ [Message ''assistant'' (Blocks (content (current_response s)))]
               @ (if rs \<noteq> [] then [Message ''user'' (ToolResults rs)] else [])"
  shows "run_from self bp (Some tm) R s =
     (case client self (api_log s) (final_params self bp ms) of
        Inl e \<Rightarrow> Inr apology
      | Inr r \<Rightarrow> (case first_text r of Inl e \<Rightarrow> Inr apology | Inr t \<Rightarrow> Inr t),
      s\<lparr>round_count := R, msgs := ms, tool_log := lg,
        api_log := api_log s @ [final_params self bp ms]\<rparr>)
    \<and> tools (final_params self bp ms) = None
    \<and> tool_choice (final_params self bp ms) = None
    \<and> messages (final_params self bp ms) = ms
    \<and> (\<forall>r t. client self (api_log s) (final_params self bp ms) = Inr r \<and> first_text r = Inr t
         \<longrightarrow> fst (run_from self bp (Some tm) R s) = Inr t)"
proof -
  from assms(1,4) have R: "round_count s + 1 = R" by simp
  have l: "tool_loop self bp (Some tm) R s = (None, after_round s rs lg)"
    by (rule tool_loop_break [OF assms(1-4)])
  have p: "stop_reason (current_response (after_round s rs lg)) = ''tool_use''"
    using assms(2) by (simp add: after_round_def)
  have r: "run_from self bp (Some tm) R s =
     (case client self (api_log s) (final_params self bp ms) of
        Inl e \<Rightarrow> Inr apology
      | Inr r \<Rightarrow> (case first_text r of Inl e \<Rightarrow> Inr apology | Inr t \<Rightarrow> Inr t),
      s\<lparr>round_count := R, msgs := ms, tool_log := lg,
        api_log := api_log s @ [final_params self bp ms]\<rparr>)"
    unfolding run_from_after_loop [OF l] final_response_pending [OF p]
    using assms(5) R by (simp add: after_round_def)
  have a: "\<forall>r t. client self (api_log s) (final_params self bp ms) = Inr r \<and> first_text r = Inr t
         \<longrightarrow> fst (run_from self bp (Some tm) R s) = Inr t"
    unfolding r by auto
  from r a show ?thesis by (simp add: final_params_def)
qed

text \<open>
  One round allowed: the second call is the final one, without tools.
\<close>

theorem forced_final_call_witness:
  "round_count (entry_state tools_then_text) < 1
   \<and> stop_reason (current_response (entry_state tools_then_text)) = ''tool_use''
   \<and> 1 \<le> round_count (entry_state tools_then_text) + 1
   \<and> fst (handle_tool_execution tools_then_text tool_use_response
             (query_params tools_then_text) (Some search_results_manager) (Some 1)
             [query_params tools_then_text]) = Inr ''Final response''
   \<and> map tools (calls (snd (handle_tool_execution tools_then_text tool_use_response
             (query_params tools_then_text) (Some search_results_manager) (Some 1)
             [query_params tools_then_text])))
      = [Some [search_tool_definition], None]
   \<and> messages (last (calls (snd (handle_tool_execution tools_then_text tool_use_response
             (query_params tools_then_text) (Some search_results_manager) (Some 1)
             [query_params tools_then_text]))))
      = [Message ''user'' (Text ''Test query''),
         Message ''assistant'' (Blocks (content tool_use_response)),
         Message ''user'' (ToolResults
           [\<lparr>tr_type = ''tool_result'', tool_use_id = ''call_1'',
             tr_content = ''Search results''\<rparr>])]"
proof -
  let ?G = tools_then_text
  let ?bp = "query_params ?G"
  let ?rs = "[\<lparr>tr_type = ''tool_result'', tool_use_id = ''call_1'',
                tr_content = ''Search results''\<rparr>]"
  let ?lg = "[(''search_course_content'', [(''query'', AStr ''programming'')])]"
  let ?ms = "[Message ''user'' (Text ''Test query''),
            Message ''assistant'' (Blocks (content tool_use_response)),
            Message ''user'' (ToolResults ?rs)]"
  have h1: "round_count (entry_state ?G) < 1"
    and h2: "stop_reason (current_response (entry_state ?G)) = ''tool_use''"
    and h3: "execute_tools search_results_manager (tool_log (entry_state ?G))
               (content (current_response (entry_state ?G))) [] = (Inr ?rs, ?lg)"
    and h4: "1 \<le> round_count (entry_state ?G) + 1"
    and h5: "?ms = msgs (entry_state ?G)
               @ [Message ''assistant'' (Blocks (content (current_response (entry_state ?G))))]
               @ (if ?rs \<noteq> [] then [Message ''user'' (ToolResults ?rs)] else [])"
    by (simp_all add: entry_state_def tool_use_response_def search_results_manager_def
          query_params_def first_params_def)
  from forced_final_call [OF h1 h2 h3 h4 h5, of ?G ?bp]
  have r: "run_from ?G ?bp (Some search_results_manager) 1 (entry_state ?G) =
     (case client ?G (api_log (entry_state ?G)) (final_params ?G ?bp ?ms) of
        Inl e \<Rightarrow> Inr apology
      | Inr r \<Rightarrow> (case first_text r of Inl e \<Rightarrow> Inr apology | Inr t \<Rightarrow> Inr t),
      (entry_state ?G)\<lparr>round_count := 1, msgs := ?ms, tool_log := ?lg,
        api_log := api_log (entry_state ?G) @ [final_params ?G ?bp ?ms]\<rparr>)"
    by blast
  have c: "client ?G (api_log (entry_state ?G)) (final_params ?G ?bp ?ms) = Inr text_response"
    by (simp add: tools_then_text_def final_params_def)
  have g: "handle_tool_execution ?G tool_use_response ?bp (Some search_results_manager) (Some 1)
             [?bp]
           = (case run_from ?G ?bp (Some search_results_manager) 1 (entry_state ?G) of
                (res, s) \<Rightarrow> (res, trace_of s))"
    by (simp add: handle_tool_execution_def entry_state_def)
  show ?thesis
    using h1 h2 h4 unfolding g r c
    by (simp add: trace_of_def entry_state_def query_params_def first_params_def
          final_params_def first_text_def text_response_def)
qed

section \<open>A response without tool use ends the run\<close>

lemma tool_loop_api_log_prefix:
  "tool_loop self bp tmo R s = (e, s') \<Longrightarrow> \<exists>ext. api_log s' = api_log s @ ext"
proof (induction s rule: tool_loop_cases_induct [where tmo = tmo and R = R and self = self and bp = bp])
  case (Stop s)
  then show ?case by (simp add: tool_loop_stop)
next
  case (Raise s tm e lg)
  then show ?case by (auto simp: tool_loop_raise)
next
  case (Break s tm rs lg)
  then show ?case by (auto simp: tool_loop_break after_round_def)
next
  case (Fail s tm rs lg e)
  then show ?case by (auto simp: tool_loop_fail after_round_def)
next
  case (Continue s tm rs lg r)
  then show ?case by (auto simp: tool_loop_continue after_round_def)
qed

lemma tool_loop_last_response:
  "tool_loop self bp tmo R s = (e, s') \<Longrightarrow> length (api_log s) \<le> j
     \<Longrightarrow> j < length (api_log s')
     \<Longrightarrow> client self (take j (api_log s')) (api_log s' ! j) = Inr r
     \<Longrightarrow> stop_reason r \<noteq> ''tool_use''
     \<Longrightarrow> Suc j = length (api_log s') \<and> e = None \<and> current_response s' = r"
proof (induction s rule: tool_loop_cases_induct [where tmo = tmo and R = R and self = self and bp = bp])
  case (Stop s)
  then show ?case by (simp add: tool_loop_stop)
next
  case (Raise s tm e lg)
  then show ?case by (auto simp: tool_loop_raise)
next
  case (Break s tm rs lg)
  then show ?case by (auto simp: tool_loop_break after_round_def)
next
  case (Fail s tm rs lg x)
  let ?np = "next_params self bp (msgs (after_round s rs lg))"
  from Fail have s': "api_log s' = api_log s @ [?np]"
    by (auto simp: tool_loop_fail)
  with Fail.prems(2,3) have "j = length (api_log s)" by simp
  with s' have "take j (api_log s') = api_log s" and "api_log s' ! j = ?np"
    by simp_all
  with Fail.prems(4) Fail.hyps(6) show ?case by simp
next
  case (Continue s tm rs lg r')
  let ?np = "next_params self bp (msgs (after_round s rs lg))"
  let ?s2 = "(after_round s rs lg)\<lparr>api_log := api_log s @ [?np], current_response := r'\<rparr>"
  from Continue.hyps Continue.prems(1)
  have l: "tool_loop self bp tmo R ?s2 = (e, s')"
    by (simp add: tool_loop_continue)
  from tool_loop_api_log_prefix [OF l] obtain ext where
    ext: "api_log s' = (api_log s @ [?np]) @ ext" by auto
  show ?case
  proof (cases "j = length (api_log s)")
    case True
    with ext have "take j (api_log s') = api_log s" and "api_log s' ! j = ?np"
      by (simp_all add: nth_append)
    with Continue.prems(4) Continue.hyps(6) have rr: "r = r'" by simp
    with Continue.prems(5) have "tool_loop self bp tmo R ?s2 = (None, ?s2)"
      by (intro tool_loop_stop) simp
    with l True rr show ?thesis by auto
  next
    case False
    with Continue.prems(2) have "length (api_log ?s2) \<le> j" by simp
    from Continue.IH [OF l this Continue.prems(3-5)] show ?thesis .
  qed
qed

lemma run_from_api_log_prefix:
  assumes "run_from self bp tmo R s = (res, s')"
  shows "\<exists>ext. api_log s' = api_log s @ ext"
proof -
  obtain e s1 where l: "tool_loop self bp tmo R s = (e, s1)"
    by (cases "tool_loop self bp tmo R s") auto
  from tool_loop_api_log_prefix [OF l] assms l show ?thesis
    by (cases e) (auto simp: run_from_def final_response_def split: if_splits sum.splits)
qed

lemma run_from_last_response:
  assumes run: "run_from self bp tmo R s = (res, s')"
    and j: "length (api_log s) \<le> j" "j < length (api_log s')"
    and c: "client self (take j (api_log s')) (api_log s' ! j) = Inr r"
    and r: "stop_reason r \<noteq> ''tool_use''" "first_text r = Inr t"
  shows "Suc j = length (api_log s') \<and> res = Inr t"
proof -
  obtain e s1 where l: "tool_loop self bp tmo R s = (e, s1)"
    by (cases "tool_loop self bp tmo R s") auto
  note last = tool_loop_last_response [OF l j(1)]
  show ?thesis
  proof (cases e)
    case (Some x)
    with run l have "s' = s1" by (simp add: run_from_def)
    with last j(2) c r(1) Some show ?thesis by auto
  next
    case None
    with run l have f: "final_response self bp s1 = (res, s')" by (simp add: run_from_def)
    show ?thesis
    proof (cases "stop_reason (current_response s1) = ''tool_use''")
      case False
      with f have "s' = s1" and "res = first_text (current_response s1)"
        by (auto simp: final_response_def)
      with last j(2) c r show ?thesis by auto
    next
      case True
      let ?fp = "final_params self bp (msgs s1)"
      from True f have s': "api_log s' = api_log s1 @ [?fp]"
        and res: "res = (case client self (api_log s1) ?fp of
                          Inl e \<Rightarrow> Inr apology
                        | Inr r \<Rightarrow> (case first_text r of Inl e \<Rightarrow> Inr apology | Inr t \<Rightarrow> Inr t))"
        by (auto simp: final_response_def split: sum.splits)
      show ?thesis
      proof (cases "j < length (api_log s1)")
        case True
        with s' c have "client self (take j (api_log s1)) (api_log s1 ! j) = Inr r"
          by (simp add: nth_append)
        from last [OF True this r(1)] have "current_response s1 = r" by simp
        with \<open>stop_reason (current_response s1) = ''tool_use''\<close> r(1) show ?thesis by simp
      next
        case False
        with j(2) s' have jl: "j = length (api_log s1)" by simp
        with s' c have "client self (api_log s1) ?fp = Inr r" by simp
        with res r(2) jl s' show ?thesis by simp
      qed
    qed
  qed
qed

lemma handle_tool_execution_last_response:
  assumes "handle_tool_execution self ir bp tmo (Some R) made = (res, tr)"
    and "length made < k" "k \<le> length (calls tr)"
    and "client self (take (k - 1) (calls tr)) (calls tr ! (k - 1)) = Inr r"
    and "stop_reason r \<noteq> ''tool_use''" "first_text r = Inr t"
  shows "length (calls tr) = k \<and> res = Inr t"
proof -
  let ?s0 = "\<lparr>msgs = messages bp, current_response = ir,
              round_count = 0, api_log = made, tool_log = []\<rparr>"
  obtain s' where run: "run_from self bp tmo R ?s0 = (res, s')" and tr: "tr = trace_of s'"
    using assms(1) by (auto simp: handle_tool_execution_def split: prod.splits)
  from tr have calls: "calls tr = api_log s'" by (simp add: trace_of_def)
  have "Suc (k - 1) = length (api_log s') \<and> res = Inr t"
    by (rule run_from_last_response [OF run _ _ _ assms(5,6)])
      (use assms(2-4) calls in auto)
  with assms(2) calls show ?thesis by simp
qed

lemma handle_tool_execution_calls_prefix:
  assumes "handle_tool_execution self ir bp tmo (Some R) made = (res, tr)"
  shows "\<exists>ext. calls tr = made @ ext"
proof -
  let ?s0 = "\<lparr>msgs = messages bp, current_response = ir,
              round_count = 0, api_log = made, tool_log = []\<rparr>"
  obtain s' where run: "run_from self bp tmo R ?s0 = (res, s')" and tr: "tr = trace_of s'"
    using assms(1) by (auto simp: handle_tool_execution_def split: prod.splits)
  from run_from_api_log_prefix [OF run] tr show ?thesis by (simp add: trace_of_def)
qed

text \<open>
  Claim C5. In a run of \<^verbatim>\<open>generate_response\<close>, when the \<open>k\<close>-th call to the client
  returned a response that does not ask for tools, that call is the last one (exactly
  \<open>k\<close> calls are made) and the text of that response is returned unchanged. The first call
  is the case \<open>k = 1\<close>. The \<open>k\<close>-th call is read off the calls of the run: the client was
  given the \<open>k - 1\<close> calls before it and the parameters of the \<open>k\<close>-th.
\<close>

theorem no_tool_use_ends_run:
  assumes "generate_response self q h tls tmo = (res, tr)"
    and "1 \<le> k" and "k \<le> length (calls tr)"
    and "client self (take (k - 1) (calls tr)) (calls tr ! (k - 1)) = Inr r"
    and "stop_reason r \<noteq> ''tool_use''"
    and "first_text r = Inr t"
  shows "length (calls tr) = k \<and> res = Inr t"
proof -
  let ?p = "first_params self q h tls"
  show ?thesis
  proof (cases "client self [] ?p")
    case (Inl e)
    with assms(1) have "calls tr = [?p]" by (auto simp: generate_response_def Let_def)
    with assms(2-4) Inl show ?thesis by (cases k) auto
  next
    case (Inr r0)
    show ?thesis
    proof (cases "stop_reason r0 = ''tool_use'' \<and> tmo \<noteq> None")
      case False
      with Inr assms(1) have "calls tr = [?p]" and "res = first_text r0"
        by (auto simp: generate_response_def Let_def)
      with assms(2-6) Inr show ?thesis by (cases k) auto
    next
      case True
      with Inr assms(1) have
        hd: "handle_tool_execution self r0 ?p tmo (Some 2) [?p] = (res, tr)"
        by (simp add: generate_response_def Let_def)
      from handle_tool_execution_calls_prefix [OF hd] obtain ext where
        ext: "calls tr = [?p] @ ext" by auto
      show ?thesis
      proof (cases "k = 1")
        case True
        with ext assms(4) Inr have "r = r0" by simp
        with \<open>stop_reason r0 = ''tool_use'' \<and> tmo \<noteq> None\<close> assms(5) show ?thesis by simp
      next
        case False
        with assms(2) have "length [?p] < k" by simp
        from handle_tool_execution_last_response [OF hd this assms(3-6)] show ?thesis .
      qed
    qed
  qed
qed

text \<open>
  The early-termination test: a tool request, then a text answer to the second call.
\<close>

theorem no_tool_use_ends_run_witness:
  "(1::nat) \<le> 2
   \<and> 2 \<le> length (calls (snd (generate_response tool_then_text ''Test query'' None
              (Some [search_tool_definition]) (Some search_results_manager))))
   \<and> client tool_then_text
        (take (2 - 1) (calls (snd (generate_response tool_then_text ''Test query'' None
              (Some [search_tool_definition]) (Some search_results_manager)))))
        (calls (snd (generate_response tool_then_text ''Test query'' None
              (Some [search_tool_definition]) (Some search_results_manager))) ! (2 - 1))
      = Inr text_response
   \<and> stop_reason text_response \<noteq> ''tool_use''
   \<and> first_text text_response = Inr ''Final response''
   \<and> length (calls (snd (generate_response tool_then_text ''Test query'' None
              (Some [search_tool_definition]) (Some search_results_manager)))) = 2
   \<and> fst (generate_response tool_then_text ''Test query'' None
              (Some [search_tool_definition]) (Some search_results_manager))
      = Inr ''Final response''"
proof -
  let ?g = "generate_response tool_then_text ''Test query'' None
              (Some [search_tool_definition]) (Some search_results_manager)"
  have g: "?g = (fst ?g, snd ?g)" by simp
  have h2: "(1::nat) \<le> 2" by simp
  have h3: "2 \<le> length (calls (snd ?g))"
    by (simp add: run_defs)
  have h4: "client tool_then_text (take (2 - 1) (calls (snd ?g))) (calls (snd ?g) ! (2 - 1))
              = Inr text_response"
    using h3 by (auto simp: tool_then_text_def)
  have h5: "stop_reason text_response \<noteq> ''tool_use''"
    and h6: "first_text text_response = Inr ''Final response''"
    by (simp_all add: text_response_def first_text_def)
  from no_tool_use_ends_run [OF g h2 h3 h4 h5 h6] h2 h3 h4 h5 h6
  show ?thesis by blast
qed

section \<open>The maximum number of rounds\<close>

text \<open>
  Claim C6, as amended. The maximum number of rounds is the parameter \<^verbatim>\<open>max_rounds\<close>
  of \<^verbatim>\<open>_handle_tool_execution\<close>, 2 when omitted. \<^verbatim>\<open>generate_response\<close> has no such
  parameter: it passes the constant 2, and no run of it counts more than 2 rounds.
\<close>

theorem max_rounds_default:
  "handle_tool_execution self ir bp tmo None made
     = handle_tool_execution self ir bp tmo (Some 2) made
   \<and> (\<forall>r. client self [] (first_params self q h tls) = Inr r \<and> stop_reason r = ''tool_use''
            \<and> tmo \<noteq> None \<longrightarrow>
          generate_response self q h tls tmo
            = handle_tool_execution self r (first_params self q h tls) tmo (Some 2)
                [first_params self q h tls])
   \<and> rounds (snd (generate_response self q h tls tmo)) \<le> 2"
proof -
  obtain res tr where g: "generate_response self q h tls tmo = (res, tr)"
    by (cases "generate_response self q h tls tmo") auto
  from generate_response_bounds(2) [OF g] g
  have "rounds (snd (generate_response self q h tls tmo)) \<le> 2" by simp
  then show ?thesis
    by (simp add: handle_tool_execution_def generate_response_def Let_def)
qed

text \<open>
  The run of the client that always asks for a tool is the handler's run at the default.
\<close>

theorem max_rounds_default_witness:
  "client always_tool_use [] (first_params always_tool_use ''Test query'' None
       (Some [search_tool_definition])) = Inr tool_use_response
   \<and> stop_reason tool_use_response = ''tool_use''
   \<and> Some search_results_manager \<noteq> None
   \<and> generate_response always_tool_use ''Test query'' None (Some [search_tool_definition])
        (Some search_results_manager)
      = handle_tool_execution always_tool_use tool_use_response
          (first_params always_tool_use ''Test query'' None (Some [search_tool_definition]))
          (Some search_results_manager) None
          [first_params always_tool_use ''Test query'' None (Some [search_tool_definition])]"
proof -
  have c: "client always_tool_use [] (first_params always_tool_use ''Test query'' None
       (Some [search_tool_definition])) = Inr tool_use_response"
    by (simp add: always_tool_use_def)
  have s: "stop_reason tool_use_response = ''tool_use''"
    by (simp add: tool_use_response_def)
  from max_rounds_default [of always_tool_use tool_use_response
      "first_params always_tool_use ''Test query'' None (Some [search_tool_definition])"
      "Some search_results_manager"
      "[first_params always_tool_use ''Test query'' None (Some [search_tool_definition])]"
      "''Test query''" None "Some [search_tool_definition]"] c s
  show ?thesis by simp
qed

text \<open>
  Claim C6 as stated fails: a caller who wants three rounds cannot have them from
  \<^verbatim>\<open>generate_response\<close>, whatever the generator and the arguments, although
  \<^verbatim>\<open>_handle_tool_execution\<close> with \<^verbatim>\<open>max_rounds=3\<close> runs three rounds against the client
  that always asks for a tool.
\<close>

theorem max_rounds_not_a_parameter_of_generate:
  "\<not> (\<exists>self q h tls tmo. rounds (snd (generate_response self q h tls tmo)) = 3)
   \<and> rounds (snd (handle_tool_execution always_tool_use tool_use_response
        (query_params always_tool_use) (Some search_results_manager) (Some 3)
        [query_params always_tool_use])) = 3"
proof -
  have "rounds (snd (generate_response self q h tls tmo)) \<noteq> 3" for self q h tls tmo
  proof -
    obtain res tr where g: "generate_response self q h tls tmo = (res, tr)"
      by (cases "generate_response self q h tls tmo") auto
    from generate_response_bounds(2) [OF g] g show ?thesis by simp
  qed
  moreover have "rounds (snd (handle_tool_execution always_tool_use tool_use_response
        (query_params always_tool_use) (Some search_results_manager) (Some 3)
        [query_params always_tool_use])) = 3"
    by (simp add: run_defs)
  ultimately show ?thesis by blast
qed

end
